theory Spec2Isabelle
  imports Main
begin

section \<open>Conventions\<close>

text \<open>
  The widgets are pure TypeScript functions over immutable models. A JavaScript number
  that holds an index, a length, a height or a timestamp is modelled as an \<open>int\<close>
  (fractions, NaN and infinities are outside the model). An optional field \<open>f?: t\<close> is
  a \<open>t option\<close>, \<open>None\<close> standing for \<open>undefined\<close>. A string is a \<open>string\<close> and its
  \<open>.length\<close> is the length of the list. An exception thrown by the JavaScript runtime
  is a value of \<open>js_error\<close>, returned on the left of a sum.
\<close>

datatype js_error = TypeError | RangeError

section \<open>List widget (list.ts)\<close>

record 'a ListItem =
  title :: string
  description :: "string option"
  item_value :: "'a option"
  disabled :: "bool option"

record 'a ListOptions =
  opt_items :: "'a ListItem list option"
  opt_selected :: "int option"
  opt_height :: "int option"
  opt_cursor :: "string option"
  opt_uncursor :: "string option"
  opt_showDescriptions :: "bool option"
  opt_wrap :: "bool option"

record 'a ListModel =
  items :: "'a ListItem list"
  selected :: int
  height :: int
  offset :: int
  cursor :: string
  uncursor :: string
  showDescriptions :: bool
  wrap :: bool

datatype direction = Up | Down

text \<open>\<open>options.f ?? d\<close>\<close>

definition nullish :: "'b option \<Rightarrow> 'b \<Rightarrow> 'b" where
  "nullish v d = (case v of None \<Rightarrow> d | Some x \<Rightarrow> x)"

text \<open>
  \<open>items[i]?.disabled\<close> used as a condition: an index outside the array reads
  \<open>undefined\<close>, and so does a missing \<open>disabled\<close> field; both are falsy.
\<close>

definition item_disabled :: "'a ListItem list \<Rightarrow> int \<Rightarrow> bool" where
  "item_disabled its i =
     (0 \<le> i \<and> i < int (length its) \<and> disabled (its ! nat i) = Some True)"

definition createList :: "'a ListOptions \<Rightarrow> 'a ListModel" where
  "createList options =
     (let its = nullish (opt_items options) [];
          sel = nullish (opt_selected options) 0;
          h = nullish (opt_height options) 0
      in \<lparr> items = its,
           selected = max 0 (min sel (int (length its) - 1)),
           height = h,
           offset = 0,
           cursor = nullish (opt_cursor options) ''> '',
           uncursor = nullish (opt_uncursor options) ''  '',
           showDescriptions = nullish (opt_showDescriptions options) False,
           wrap = nullish (opt_wrap options) True \<rparr>)"

definition setItems :: "'a ListModel \<Rightarrow> 'a ListItem list \<Rightarrow> 'a ListModel" where
  "setItems model its =
     model\<lparr> items := its,
            selected := min (selected model) (max 0 (int (length its) - 1)),
            offset := 0 \<rparr>"

definition updateOffset :: "'a ListModel \<Rightarrow> 'a ListModel" where
  "updateOffset model =
     (if height model = 0 then model\<lparr> offset := 0 \<rparr>
      else
        let newOffset = offset model;
            newOffset = (if selected model \<ge> offset model + height model
                         then selected model - height model + 1 else newOffset);
            newOffset = (if selected model < offset model
                         then selected model else newOffset)
        in model\<lparr> offset := newOffset \<rparr>)"

text \<open>The skip loop of \<open>moveUp\<close>: state \<open>(newSelected, attempts)\<close>.\<close>

function moveUp_skip :: "'a ListItem list \<Rightarrow> bool \<Rightarrow> int \<Rightarrow> nat \<Rightarrow> int" where
  "moveUp_skip its w newSelected attempts =
     (if item_disabled its newSelected \<and> attempts < length its
      then moveUp_skip its w
             (let n = newSelected - 1
              in if n < 0 then (if w then int (length its) - 1 else 0) else n)
             (Suc attempts)
      else newSelected)"
  by pat_completeness auto
termination
  by (relation "measure (\<lambda>(its, w, n, a). length its - a)") auto

declare moveUp_skip.simps [simp del]

definition moveUp :: "'a ListModel \<Rightarrow> 'a ListModel" where
  "moveUp model =
     (if length (items model) = 0 then model
      else
        let n = selected model - 1;
            n = (if n < 0 then (if wrap model then int (length (items model)) - 1 else 0)
                 else n)
        in updateOffset (model\<lparr> selected := moveUp_skip (items model) (wrap model) n 0 \<rparr>))"

function moveDown_skip :: "'a ListItem list \<Rightarrow> bool \<Rightarrow> int \<Rightarrow> nat \<Rightarrow> int" where
  "moveDown_skip its w newSelected attempts =
     (if item_disabled its newSelected \<and> attempts < length its
      then moveDown_skip its w
             (let n = newSelected + 1
              in if n \<ge> int (length its) then (if w then 0 else int (length its) - 1) else n)
             (Suc attempts)
      else newSelected)"
  by pat_completeness auto
termination
  by (relation "measure (\<lambda>(its, w, n, a). length its - a)") auto

declare moveDown_skip.simps [simp del]

definition moveDown :: "'a ListModel \<Rightarrow> 'a ListModel" where
  "moveDown model =
     (if length (items model) = 0 then model
      else
        let n = selected model + 1;
            n = (if n \<ge> int (length (items model))
                 then (if wrap model then 0 else int (length (items model)) - 1)
                 else n)
        in updateOffset (model\<lparr> selected := moveDown_skip (items model) (wrap model) n 0 \<rparr>))"

function moveToStart_skip :: "'a ListItem list \<Rightarrow> int \<Rightarrow> int" where
  "moveToStart_skip its newSelected =
     (if item_disabled its newSelected \<and> newSelected < int (length its)
      then moveToStart_skip its (newSelected + 1)
      else newSelected)"
  by pat_completeness auto
termination
  by (relation "measure (\<lambda>(its, n). nat (int (length its) - n))") auto

declare moveToStart_skip.simps [simp del]

definition moveToStart :: "'a ListModel \<Rightarrow> 'a ListModel" where
  "moveToStart model =
     (if length (items model) = 0 then model
      else updateOffset (model\<lparr> selected := moveToStart_skip (items model) 0 \<rparr>))"

function moveToEnd_skip :: "'a ListItem list \<Rightarrow> int \<Rightarrow> int" where
  "moveToEnd_skip its newSelected =
     (if item_disabled its newSelected \<and> newSelected \<ge> 0
      then moveToEnd_skip its (newSelected - 1)
      else newSelected)"
  by pat_completeness auto
termination
  by (relation "measure (\<lambda>(its, n). nat (n + 1))") auto

declare moveToEnd_skip.simps [simp del]

definition moveToEnd :: "'a ListModel \<Rightarrow> 'a ListModel" where
  "moveToEnd model =
     (if length (items model) = 0 then model
      else updateOffset
             (model\<lparr> selected := moveToEnd_skip (items model) (int (length (items model)) - 1) \<rparr>))"

text \<open>
  The skip loop of \<open>moveByPage\<close>. \<open>None\<close> is the \<open>return model\<close> inside the loop
  (the index ran off an end); \<open>Some n\<close> is the index the loop exits with.
\<close>

function moveByPage_skip :: "'a ListItem list \<Rightarrow> direction \<Rightarrow> int \<Rightarrow> int option" where
  "moveByPage_skip its dir newSelected =
     (if item_disabled its newSelected
      then (let n = newSelected + (if dir = Up then -1 else 1)
            in if n < 0 \<or> n \<ge> int (length its) then None
               else moveByPage_skip its dir n)
      else Some newSelected)"
  by pat_completeness auto
termination
  by (relation "measure (\<lambda>(its, dir, n).
        if dir = Up then nat (n + 1) else nat (int (length its) - n))")
     (auto simp: item_disabled_def)

declare moveByPage_skip.simps [simp del]

definition page_candidate :: "'a ListModel \<Rightarrow> direction \<Rightarrow> int" where
  "page_candidate model dir =
     (let pageSize = (if height model > 0 then height model else 10);
          newSelected = selected model + (if dir = Up then - pageSize else pageSize)
      in max 0 (min newSelected (int (length (items model)) - 1)))"

definition moveByPage :: "'a ListModel \<Rightarrow> direction \<Rightarrow> 'a ListModel" where
  "moveByPage model dir =
     (if length (items model) = 0 then model
      else case moveByPage_skip (items model) dir (page_candidate model dir) of
             None \<Rightarrow> model
           | Some n \<Rightarrow> updateOffset (model\<lparr> selected := n \<rparr>))"

definition select :: "'a ListModel \<Rightarrow> int \<Rightarrow> 'a ListModel" where
  "select model index =
     (if index < 0 \<or> index \<ge> int (length (items model)) then model
      else if item_disabled (items model) index then model
      else updateOffset (model\<lparr> selected := index \<rparr>))"

definition filter_items :: "'a ListModel \<Rightarrow> ('a ListItem \<Rightarrow> bool) \<Rightarrow> 'a ListModel" where
  "filter_items model predicate = setItems model (filter predicate (items model))"

text \<open>\<open>lines.join('\n')\<close>\<close>

fun join_lines :: "string list \<Rightarrow> string" where
  "join_lines [] = []"
| "join_lines [l] = l"
| "join_lines (l # ls) = l @ [CHR 0x0A] @ join_lines ls"

definition visibleEnd :: "'a ListModel \<Rightarrow> int" where
  "visibleEnd model =
     (if height model > 0
      then min (offset model + height model) (int (length (items model)))
      else int (length (items model)))"

text \<open>
  The rendering loop of \<open>view\<close>, from index \<open>i\<close> with the lines pushed so far.
  Reading \<open>item.title\<close> of an index outside the array throws a TypeError.
\<close>

function view_loop :: "'a ListModel \<Rightarrow> int \<Rightarrow> int \<Rightarrow> string list \<Rightarrow> js_error + string list" where
  "view_loop model i vend lines =
     (if i < vend
      then (if 0 \<le> i \<and> i < int (length (items model))
            then (let item = items model ! nat i;
                      cur = (if i = selected model then cursor model else uncursor model);
                      line = cur @ title item;
                      line = (if disabled item = Some True then line @ '' (disabled)'' else line);
                      lines = lines @ [line];
                      lines = (if showDescriptions model \<and> description item \<noteq> None
                                  \<and> description item \<noteq> Some []
                               then lines @ [uncursor model @ ''  '' @ the (description item)]
                               else lines)
                  in view_loop model (i + 1) vend lines)
            else Inl TypeError)
      else Inr lines)"
  by pat_completeness auto
termination
  by (relation "measure (\<lambda>(model, i, vend, lines). nat (vend - i))") auto

declare view_loop.simps [simp del]

definition view :: "'a ListModel \<Rightarrow> js_error + string" where
  "view model =
     (if length (items model) = 0 then Inr []
      else case view_loop model (offset model) (visibleEnd model) [] of
             Inl e \<Rightarrow> Inl e
           | Inr lines \<Rightarrow> Inr (join_lines lines))"

text \<open>
  The loop of \<open>viewWith\<close>. The renderer receives \<open>items[i]\<close> as it is, \<open>None\<close> for an
  index outside the array.
\<close>

function viewWith_loop ::
  "'a ListModel \<Rightarrow> ('a ListItem option \<Rightarrow> bool \<Rightarrow> int \<Rightarrow> string) \<Rightarrow> int \<Rightarrow> int \<Rightarrow> string list
     \<Rightarrow> string list" where
  "viewWith_loop model renderItem i vend lines =
     (if i < vend
      then (let item = (if 0 \<le> i \<and> i < int (length (items model))
                        then Some (items model ! nat i) else None)
            in viewWith_loop model renderItem (i + 1) vend
                 (lines @ [renderItem item (i = selected model) i]))
      else lines)"
  by pat_completeness auto
termination
  by (relation "measure (\<lambda>(model, r, i, vend, lines). nat (vend - i))") auto

declare viewWith_loop.simps [simp del]

definition viewWith ::
  "'a ListModel \<Rightarrow> ('a ListItem option \<Rightarrow> bool \<Rightarrow> int \<Rightarrow> string) \<Rightarrow> string" where
  "viewWith model renderItem =
     (if length (items model) = 0 then []
      else join_lines (viewWith_loop model renderItem (offset model) (visibleEnd model) []))"

text \<open>The navigation calls as data, to speak about sequences of them.\<close>

datatype nav = MoveUp | MoveDown | MoveToStart | MoveToEnd | MoveByPage direction | Select int

fun navigate :: "'a ListModel \<Rightarrow> nav \<Rightarrow> 'a ListModel" where
  "navigate model MoveUp = moveUp model"
| "navigate model MoveDown = moveDown model"
| "navigate model MoveToStart = moveToStart model"
| "navigate model MoveToEnd = moveToEnd model"
| "navigate model (MoveByPage dir) = moveByPage model dir"
| "navigate model (Select index) = select model index"

definition navigate_all :: "'a ListModel \<Rightarrow> nav list \<Rightarrow> 'a ListModel" where
  "navigate_all model calls = foldl navigate model calls"

text \<open>Fixtures for concrete evaluation, in the shape of the repository's tests.\<close>

definition mk_item :: "string \<Rightarrow> bool option \<Rightarrow> unit ListItem" where
  "mk_item t d = \<lparr> title = t, description = None, item_value = None, disabled = d \<rparr>"

definition list_options :: "unit ListItem list \<Rightarrow> int \<Rightarrow> int \<Rightarrow> unit ListOptions" where
  "list_options its sel h =
     \<lparr> opt_items = Some its, opt_selected = Some sel, opt_height = Some h,
       opt_cursor = None, opt_uncursor = None, opt_showDescriptions = None,
       opt_wrap = None \<rparr>"

section \<open>Table widget (table.ts)\<close>

text \<open>
  A row is any value; the widget reads it as an object keyed by the column keys, and
  gets \<open>undefined\<close> from a row that is not an object. Cell values are the JavaScript
  primitives.
\<close>

datatype jsval = Undefined | Null | Str string | Num int | Bool bool

datatype row = RObj "(string \<times> jsval) list" | RPrim jsval

datatype alignment = AlignLeft | AlignCenter | AlignRight

record TableColumn =
  col_key :: string
  col_title :: string
  col_width :: "int option"
  col_minWidth :: "int option"
  col_maxWidth :: "int option"
  col_align :: "alignment option"
  col_format :: "(jsval \<Rightarrow> row \<Rightarrow> string) option"

record TableBorder =
  top_edge :: string
  topLeft :: string
  topRight :: string
  topMid :: string
  bottom :: string
  bottomLeft :: string
  bottomRight :: string
  bottomMid :: string
  left :: string
  right :: string
  mid :: string
  midLeft :: string
  midRight :: string
  midMid :: string
  horizontal :: string
  vertical :: string

text \<open>
  A glyph outside ASCII is written as the UTF-8 bytes of its code point
  (U+0800 to U+FFFF); no length of a border glyph is ever computed here.
\<close>

definition glyph :: "nat \<Rightarrow> string" where
  "glyph n = [char_of (0xE0 + n div 4096), char_of (0x80 + (n div 64) mod 64),
              char_of (0x80 + n mod 64)]"

datatype TableBorderName = BorderNone | BorderSimple | BorderRounded | BorderSingle
  | BorderDouble | BorderThick

fun TableBorders :: "TableBorderName \<Rightarrow> TableBorder" where
  "TableBorders BorderNone =
     \<lparr> top_edge = [], topLeft = [], topRight = [], topMid = [],
       bottom = [], bottomLeft = [], bottomRight = [], bottomMid = [],
       left = [], right = [], mid = [],
       midLeft = [], midRight = [], midMid = [],
       horizontal = [], vertical = '' '' \<rparr>"
| "TableBorders BorderSimple =
     \<lparr> top_edge = ''-'', topLeft = [], topRight = [], topMid = [],
       bottom = ''-'', bottomLeft = [], bottomRight = [], bottomMid = [],
       left = [], right = [], mid = ''-'',
       midLeft = [], midRight = [], midMid = [],
       horizontal = ''-'', vertical = '' | '' \<rparr>"
| "TableBorders BorderRounded =
     \<lparr> top_edge = glyph 0x2500, topLeft = glyph 0x256D, topRight = glyph 0x256E, topMid = glyph 0x252C,
       bottom = glyph 0x2500, bottomLeft = glyph 0x2570, bottomRight = glyph 0x256F,
       bottomMid = glyph 0x2534,
       left = glyph 0x2502, right = glyph 0x2502, mid = glyph 0x2500,
       midLeft = glyph 0x251C, midRight = glyph 0x2524, midMid = glyph 0x253C,
       horizontal = glyph 0x2500, vertical = glyph 0x2502 \<rparr>"
| "TableBorders BorderSingle =
     \<lparr> top_edge = glyph 0x2500, topLeft = glyph 0x250C, topRight = glyph 0x2510, topMid = glyph 0x252C,
       bottom = glyph 0x2500, bottomLeft = glyph 0x2514, bottomRight = glyph 0x2518,
       bottomMid = glyph 0x2534,
       left = glyph 0x2502, right = glyph 0x2502, mid = glyph 0x2500,
       midLeft = glyph 0x251C, midRight = glyph 0x2524, midMid = glyph 0x253C,
       horizontal = glyph 0x2500, vertical = glyph 0x2502 \<rparr>"
| "TableBorders BorderDouble =
     \<lparr> top_edge = glyph 0x2550, topLeft = glyph 0x2554, topRight = glyph 0x2557, topMid = glyph 0x2566,
       bottom = glyph 0x2550, bottomLeft = glyph 0x255A, bottomRight = glyph 0x255D,
       bottomMid = glyph 0x2569,
       left = glyph 0x2551, right = glyph 0x2551, mid = glyph 0x2550,
       midLeft = glyph 0x2560, midRight = glyph 0x2563, midMid = glyph 0x256C,
       horizontal = glyph 0x2550, vertical = glyph 0x2551 \<rparr>"
| "TableBorders BorderThick =
     \<lparr> top_edge = glyph 0x2501, topLeft = glyph 0x250F, topRight = glyph 0x2513, topMid = glyph 0x2533,
       bottom = glyph 0x2501, bottomLeft = glyph 0x2517, bottomRight = glyph 0x251B,
       bottomMid = glyph 0x253B,
       left = glyph 0x2503, right = glyph 0x2503, mid = glyph 0x2501,
       midLeft = glyph 0x2523, midRight = glyph 0x252B, midMid = glyph 0x254B,
       horizontal = glyph 0x2501, vertical = glyph 0x2503 \<rparr>"

datatype border_option = ByName TableBorderName | ByValue TableBorder

record TableOptions =
  topt_columns :: "TableColumn list"
  topt_rows :: "row list option"
  topt_border :: "border_option option"
  topt_showHeader :: "bool option"
  topt_showHeaderSeparator :: "bool option"
  topt_padding :: "int option"
  topt_selected :: "int option"
  topt_cursor :: "string option"
  topt_selectable :: "bool option"

record TableModel =
  columns :: "TableColumn list"
  rows :: "row list"
  border :: TableBorder
  showHeader :: bool
  showHeaderSeparator :: bool
  padding :: int
  tbl_selected :: int
  tbl_cursor :: string
  selectable :: bool
  columnWidths :: "int list"

text \<open>A number used as a condition: \<open>undefined\<close> and \<open>0\<close> are falsy.\<close>

definition truthy_num :: "int option \<Rightarrow> bool" where
  "truthy_num v = (v \<noteq> None \<and> v \<noteq> Some 0)"

definition getValue :: "row \<Rightarrow> TableColumn \<Rightarrow> jsval" where
  "getValue r col =
     (case r of
        RObj kvs \<Rightarrow> (case map_of kvs (col_key col) of None \<Rightarrow> Undefined | Some v \<Rightarrow> v)
      | RPrim _ \<Rightarrow> Undefined)"

text \<open>Decimal digits of a number, for \<open>String(n)\<close> and template strings.\<close>

fun string_of_nat :: "nat \<Rightarrow> string" where
  "string_of_nat n =
     (if n < 10 then [''0123456789'' ! n]
      else string_of_nat (n div 10) @ [''0123456789'' ! (n mod 10)])"

declare string_of_nat.simps [simp del]

definition string_of_int :: "int \<Rightarrow> string" where
  "string_of_int i = (if i < 0 then ''-'' @ string_of_nat (nat (- i)) else string_of_nat (nat i))"

fun js_String :: "jsval \<Rightarrow> string" where
  "js_String Undefined = ''undefined''"
| "js_String Null = ''null''"
| "js_String (Str s) = s"
| "js_String (Num n) = string_of_int n"
| "js_String (Bool b) = (if b then ''true'' else ''false'')"

text \<open>\<open>col.format ? col.format(value, row) : String(value ?? '')\<close>\<close>

definition cell_text :: "TableColumn \<Rightarrow> row \<Rightarrow> string" where
  "cell_text col r =
     (let v = getValue r col
      in case col_format col of
           Some f \<Rightarrow> f v r
         | None \<Rightarrow> js_String (if v = Undefined \<or> v = Null then Str [] else v))"

text \<open>The \<open>for (const row of rows)\<close> loop, carrying \<open>width\<close>.\<close>

fun scan_rows :: "TableColumn \<Rightarrow> row list \<Rightarrow> int \<Rightarrow> int" where
  "scan_rows col [] width = width"
| "scan_rows col (r # rs) width = scan_rows col rs (max width (int (length (cell_text col r))))"

text \<open>
  The body of the \<open>columns.map\<close> callback; \<open>createTable\<close> and \<open>setRows\<close> hold the
  same statements.
\<close>

definition column_width :: "row list \<Rightarrow> TableColumn \<Rightarrow> int" where
  "column_width rs col =
     (let width = int (length (col_title col));
          width = scan_rows col rs width
      in if truthy_num (col_width col) then the (col_width col)
         else
           let width = (if truthy_num (col_minWidth col)
                        then max width (the (col_minWidth col)) else width);
               width = (if truthy_num (col_maxWidth col)
                        then min width (the (col_maxWidth col)) else width)
           in width)"

definition createTable :: "TableOptions \<Rightarrow> TableModel" where
  "createTable options =
     (let b = (case topt_border options of
                 Some (ByName name) \<Rightarrow> TableBorders name
               | Some (ByValue v) \<Rightarrow> v
               | None \<Rightarrow> TableBorders BorderSingle);
          rs = nullish (topt_rows options) [];
          cols = topt_columns options;
          pad = nullish (topt_padding options) 1
      in \<lparr> columns = cols,
           rows = rs,
           border = b,
           showHeader = nullish (topt_showHeader options) True,
           showHeaderSeparator = nullish (topt_showHeaderSeparator options) True,
           padding = pad,
           tbl_selected = nullish (topt_selected options) (- 1),
           tbl_cursor = nullish (topt_cursor options) (glyph 0x2192),
           selectable = nullish (topt_selectable options) False,
           columnWidths = map (column_width rs) cols \<rparr>)"

definition setRows :: "TableModel \<Rightarrow> row list \<Rightarrow> TableModel" where
  "setRows model rs =
     model\<lparr> rows := rs,
            columnWidths := map (column_width rs) (columns model),
            tbl_selected := min (tbl_selected model) (int (length rs) - 1) \<rparr>"

text \<open>Fixtures for concrete evaluation.\<close>

definition mk_column :: "string \<Rightarrow> string \<Rightarrow> int option \<Rightarrow> int option \<Rightarrow> int option \<Rightarrow> TableColumn" where
  "mk_column k t w lo hi =
     \<lparr> col_key = k, col_title = t, col_width = w, col_minWidth = lo, col_maxWidth = hi,
       col_align = None, col_format = None \<rparr>"

definition table_options :: "TableColumn list \<Rightarrow> row list \<Rightarrow> TableOptions" where
  "table_options cols rs =
     \<lparr> topt_columns = cols, topt_rows = Some rs, topt_border = None, topt_showHeader = None,
       topt_showHeaderSeparator = None, topt_padding = None, topt_selected = None,
       topt_cursor = None, topt_selectable = None \<rparr>"

section \<open>Timer widget (timer.ts)\<close>













section \<open>Text input widget (textinput.ts)\<close>

record TextInputModel =
  ti_value :: string
  ti_cursor :: int
  placeholder :: string
  maxLength :: int
  ti_mask :: "string option"
  showCharCount :: bool
  width :: int
  prompt :: string
  cursorChar :: string
  focused :: bool

text \<open>\<open>s.repeat(count)\<close> throws a RangeError for a negative count.\<close>

definition js_repeat :: "string \<Rightarrow> int \<Rightarrow> js_error + string" where
  "js_repeat s count =
     (if count < 0 then Inl RangeError else Inr (concat (replicate (nat count) s)))"

text \<open>
  \<open>s.slice(start, end)\<close>: a negative index counts from the end, both are clamped to
  the string, and an empty range gives the empty string. \<open>None\<close> is an omitted
  \<open>end\<close>.
\<close>

definition js_slice :: "string \<Rightarrow> int \<Rightarrow> int option \<Rightarrow> string" where
  "js_slice s start_i end_opt =
     (let len = int (length s);
          from_i = (if start_i < 0 then max (len + start_i) 0 else min start_i len);
          to_i = (case end_opt of
                  None \<Rightarrow> len
                | Some e \<Rightarrow> (if e < 0 then max (len + e) 0 else min e len))
      in if from_i \<ge> to_i then [] else take (nat (to_i - from_i)) (drop (nat from_i) s))"

definition js_padEnd :: "string \<Rightarrow> int \<Rightarrow> string" where
  "js_padEnd s w = s @ replicate (nat (w - int (length s))) CHR '' ''"

definition bind_err :: "js_error + 'b \<Rightarrow> ('b \<Rightarrow> js_error + 'c) \<Rightarrow> js_error + 'c" where
  "bind_err r f = (case r of Inl e \<Rightarrow> Inl e | Inr v \<Rightarrow> f v)"

text \<open>A string used as a condition: \<open>null\<close> and the empty string are falsy.\<close>

definition truthy_str :: "string option \<Rightarrow> bool" where
  "truthy_str v = (v \<noteq> None \<and> v \<noteq> Some [])"

text \<open>The steps of \<open>view\<close>, in the order of the source.\<close>

definition apply_mask :: "TextInputModel \<Rightarrow> js_error + string" where
  "apply_mask model =
     (case ti_mask model of
        None \<Rightarrow> Inr (ti_value model)
      | Some m \<Rightarrow> js_repeat m (int (length (ti_value model))))"

definition show_placeholder :: "TextInputModel \<Rightarrow> string \<Rightarrow> string" where
  "show_placeholder model displayValue =
     (if length displayValue = 0 \<and> placeholder model \<noteq> [] \<and> \<not> focused model
      then placeholder model else displayValue)"

definition insert_cursor :: "TextInputModel \<Rightarrow> string \<Rightarrow> js_error + string" where
  "insert_cursor model displayValue =
     (if focused model
      then bind_err
             (if truthy_str (ti_mask model) then js_repeat (the (ti_mask model)) (ti_cursor model)
              else Inr (js_slice displayValue 0 (Some (ti_cursor model))))
             (\<lambda>before. bind_err
                (if truthy_str (ti_mask model)
                 then js_repeat (the (ti_mask model)) (int (length (ti_value model)) - ti_cursor model)
                 else Inr (js_slice displayValue (ti_cursor model) None))
                (\<lambda>after. Inr (before @ cursorChar model @ after)))
      else Inr displayValue)"

definition apply_width :: "TextInputModel \<Rightarrow> string \<Rightarrow> string" where
  "apply_width model displayValue =
     (if width model > 0
      then (if int (length displayValue) > width model
            then (let cursorInDisplay = ti_cursor model + (if focused model then 1 else 0)
                  in if cursorInDisplay > width model
                     then (let off = cursorInDisplay - width model
                           in js_slice displayValue off (Some (off + width model)))
                     else js_slice displayValue 0 (Some (width model)))
            else js_padEnd displayValue (width model))
      else displayValue)"

definition textinput_view :: "TextInputModel \<Rightarrow> js_error + string" where
  "textinput_view model =
     bind_err (apply_mask model) (\<lambda>displayValue.
     bind_err (insert_cursor model (show_placeholder model displayValue)) (\<lambda>displayValue.
       let result = prompt model @ apply_width model displayValue
       in Inr (if showCharCount model \<and> maxLength model > 0
               then result @ '' '' @ string_of_nat (length (ti_value model)) @ ''/''
                      @ string_of_int (maxLength model)
               else result)))"

section \<open>Stated properties as predicates\<close>

text \<open>The scroll window \<open>[offset, offset + height)\<close> contains the selected index.\<close>

definition window_ok :: "'a ListModel \<Rightarrow> bool" where
  "window_ok m = (offset m \<le> selected m \<and> selected m \<le> offset m + height m - 1)"

text \<open>\<open>0 \<le> offset \<le> max(0, items.length - height)\<close>\<close>

definition offset_in_bounds :: "'a ListModel \<Rightarrow> bool" where
  "offset_in_bounds m =
     (0 \<le> offset m \<and> offset m \<le> max 0 (int (length (items m)) - height m))"

text \<open>\<open>0 \<le> selected < items.length\<close>, or \<open>selected = 0\<close> on an empty list.\<close>

definition selected_in_range :: "'a ListModel \<Rightarrow> bool" where
  "selected_in_range m =
     (if items m = [] then selected m = 0
      else 0 \<le> selected m \<and> selected m < int (length (items m)))"

text \<open>Some item is not disabled.\<close>

definition some_enabled :: "'a ListItem list \<Rightarrow> bool" where
  "some_enabled its = list_ex (\<lambda>it. disabled it \<noteq> Some True) its"

text \<open>
  The width of a column's content: the largest of the title's length and the lengths
  of the formatted cell texts of all rows.
\<close>

definition content_width :: "row list \<Rightarrow> TableColumn \<Rightarrow> int" where
  "content_width rs col =
     Max (insert (int (length (col_title col))) ((\<lambda>r. int (length (cell_text col r))) ` set rs))"

text \<open>
  The column width in the specification's words: the fixed width when one is
  specified; otherwise the content width clamped into \<open>[minWidth, maxWidth]\<close>, either
  bound optional (the lower bound applied first).
\<close>

definition claimed_column_width :: "row list \<Rightarrow> TableColumn \<Rightarrow> int" where
  "claimed_column_width rs col =
     (case col_width col of
        Some w \<Rightarrow> w
      | None \<Rightarrow>
          let w = content_width rs col;
              w = (case col_minWidth col of Some lo \<Rightarrow> max w lo | None \<Rightarrow> w);
              w = (case col_maxWidth col of Some hi \<Rightarrow> min w hi | None \<Rightarrow> w)
          in w)"

text \<open>A column whose \<open>width\<close> or \<open>maxWidth\<close> of 0 is read as not specified.\<close>

definition zero_as_absent :: "int option \<Rightarrow> int option" where
  "zero_as_absent v = (if v = Some 0 then None else v)"

definition zero_bounds_absent :: "TableColumn \<Rightarrow> TableColumn" where
  "zero_bounds_absent col =
     col\<lparr> col_width := zero_as_absent (col_width col),
           col_maxWidth := zero_as_absent (col_maxWidth col) \<rparr>"

text \<open>A masked input, for concrete evaluation.\<close>

definition password_input :: TextInputModel where
  "password_input =
     \<lparr> ti_value = [], ti_cursor = 6, placeholder = [], maxLength = 8,
       ti_mask = Some ''*'', showCharCount = True, width = 0, prompt = ''> '',
       cursorChar = ''|'', focused = True \<rparr>"

section \<open>Properties of the list widget\<close>

subsection \<open>The scroll-window rule and the skip loops\<close>

lemma updateOffset_fields [simp]:
  "items (updateOffset m) = items m" "height (updateOffset m) = height m"
  "selected (updateOffset m) = selected m"
  by (simp_all add: updateOffset_def Let_def)

lemma updateOffset_window: "0 < height m \<Longrightarrow> window_ok (updateOffset m)"
  by (auto simp: window_ok_def updateOffset_def Let_def)

lemma updateOffset_bounds:
  assumes "0 < height m" "offset_in_bounds m" "0 \<le> selected m"
    "selected m < int (length (items m))"
  shows "offset_in_bounds (updateOffset m)"
  using assms by (auto simp: offset_in_bounds_def updateOffset_def Let_def)

lemma updateOffset_zero: "height m = 0 \<Longrightarrow> offset (updateOffset m) = 0"
  by (simp add: updateOffset_def)

lemma moveUp_skip_range:
  "0 \<le> n \<Longrightarrow> n < int (length its) \<Longrightarrow>
   0 \<le> moveUp_skip its w n a \<and> moveUp_skip its w n a < int (length its)"
proof (induction its w n a rule: moveUp_skip.induct)
  case (1 its w n a)
  show ?case
  proof (cases "item_disabled its n \<and> a < length its")
    case True
    let ?n' = "(let k = n - 1 in if k < 0 then (if w then int (length its) - 1 else 0) else k)"
    have r: "0 \<le> ?n'" "?n' < int (length its)" using "1.prems" by (auto simp: Let_def)
    have "moveUp_skip its w n a = moveUp_skip its w ?n' (Suc a)"
      using True by (subst moveUp_skip.simps) simp
    moreover have "0 \<le> moveUp_skip its w ?n' (Suc a) \<and> moveUp_skip its w ?n' (Suc a) < int (length its)"
      using "1.IH" [OF True r] .
    ultimately show ?thesis by simp
  next
    case False
    then have "moveUp_skip its w n a = n" by (subst moveUp_skip.simps) auto
    with "1.prems" show ?thesis by simp
  qed
qed

lemma moveDown_skip_range:
  "0 \<le> n \<Longrightarrow> n < int (length its) \<Longrightarrow>
   0 \<le> moveDown_skip its w n a \<and> moveDown_skip its w n a < int (length its)"
proof (induction its w n a rule: moveDown_skip.induct)
  case (1 its w n a)
  show ?case
  proof (cases "item_disabled its n \<and> a < length its")
    case True
    let ?n' = "(let k = n + 1 in if k \<ge> int (length its) then (if w then 0 else int (length its) - 1) else k)"
    have r: "0 \<le> ?n'" "?n' < int (length its)" using "1.prems" by (auto simp: Let_def)
    have "moveDown_skip its w n a = moveDown_skip its w ?n' (Suc a)"
      using True by (subst moveDown_skip.simps) simp
    moreover have "0 \<le> moveDown_skip its w ?n' (Suc a) \<and> moveDown_skip its w ?n' (Suc a) < int (length its)"
      using "1.IH" [OF True r] .
    ultimately show ?thesis by simp
  next
    case False
    then have "moveDown_skip its w n a = n" by (subst moveDown_skip.simps) auto
    with "1.prems" show ?thesis by simp
  qed
qed

lemma moveToStart_skip_range:
  "n \<le> j \<Longrightarrow> j < int (length its) \<Longrightarrow> \<not> item_disabled its j \<Longrightarrow>
   n \<le> moveToStart_skip its n \<and> moveToStart_skip its n \<le> j"
proof (induction its n rule: moveToStart_skip.induct)
  case (1 its n)
  show ?case
  proof (cases "item_disabled its n \<and> n < int (length its)")
    case True
    then have "n \<noteq> j" using "1.prems" by auto
    then have "n + 1 \<le> j" using "1.prems" by simp
    from "1.IH" [OF True this "1.prems"(2,3)]
    show ?thesis using True by (subst (1 2) moveToStart_skip.simps) simp
  next
    case False
    then have "moveToStart_skip its n = n" by (subst moveToStart_skip.simps) auto
    with "1.prems" show ?thesis by simp
  qed
qed

lemma moveToEnd_skip_range:
  "j \<le> n \<Longrightarrow> 0 \<le> j \<Longrightarrow> \<not> item_disabled its j \<Longrightarrow>
   j \<le> moveToEnd_skip its n \<and> moveToEnd_skip its n \<le> n"
proof (induction its n rule: moveToEnd_skip.induct)
  case (1 its n)
  show ?case
  proof (cases "item_disabled its n \<and> n \<ge> 0")
    case True
    then have "n \<noteq> j" using "1.prems" by auto
    then have "j \<le> n - 1" using "1.prems" by simp
    from "1.IH" [OF True this "1.prems"(2,3)]
    show ?thesis using True by (subst (1 2) moveToEnd_skip.simps) simp
  next
    case False
    then have "moveToEnd_skip its n = n" by (subst moveToEnd_skip.simps) auto
    with "1.prems" show ?thesis by simp
  qed
qed

lemma moveByPage_skip_range:
  "moveByPage_skip its dir n = Some r \<Longrightarrow> 0 \<le> n \<Longrightarrow> n < int (length its) \<Longrightarrow>
   0 \<le> r \<and> r < int (length its)"
proof (induction its dir n rule: moveByPage_skip.induct)
  case (1 its dir n)
  show ?case
  proof (cases "item_disabled its n")
    case True
    let ?n' = "n + (if dir = Up then -1 else 1)"
    have nr: "\<not> (?n' < 0 \<or> ?n' \<ge> int (length its))"
      using True "1.prems"(1) by (subst (asm) moveByPage_skip.simps) (auto simp: Let_def split: if_splits)
    have eq: "moveByPage_skip its dir ?n' = Some r"
      using True "1.prems"(1) nr by (subst (asm) moveByPage_skip.simps) (simp add: Let_def)
    show ?thesis using "1.IH" [OF True refl nr eq] nr by simp
  next
    case False
    then have "moveByPage_skip its dir n = Some n" by (subst moveByPage_skip.simps) simp
    with "1.prems" show ?thesis by simp
  qed
qed

lemma some_enabled_index:
  "some_enabled its \<Longrightarrow> \<exists>j. 0 \<le> j \<and> j < int (length its) \<and> \<not> item_disabled its j"
proof -
  assume "some_enabled its"
  then obtain it where "it \<in> set its" "disabled it \<noteq> Some True"
    by (auto simp: some_enabled_def list_ex_iff)
  then obtain k where "k < length its" "its ! k = it" by (auto simp: in_set_conv_nth)
  with \<open>disabled it \<noteq> Some True\<close> have "0 \<le> int k \<and> int k < int (length its) \<and> \<not> item_disabled its (int k)"
    by (simp add: item_disabled_def)
  then show ?thesis by blast
qed

lemma navigate_cases:
  "navigate m c = m \<or> (\<exists>s. navigate m c = updateOffset (m\<lparr> selected := s \<rparr>))"
  by (cases c)
     (auto simp: moveUp_def moveDown_def moveToStart_def moveToEnd_def moveByPage_def
        select_def Let_def split: option.splits)

lemma page_candidate_range:
  "items m \<noteq> [] \<Longrightarrow> 0 \<le> page_candidate m dir \<and> page_candidate m dir < int (length (items m))"
  by (auto simp: page_candidate_def Let_def)

lemma navigate_cases_range:
  assumes "selected_in_range m"
    and "c = MoveToStart \<or> c = MoveToEnd \<longrightarrow> some_enabled (items m)"
  shows "navigate m c = m
         \<or> (\<exists>s. 0 \<le> s \<and> s < int (length (items m))
                \<and> navigate m c = updateOffset (m\<lparr> selected := s \<rparr>))"
proof (cases "items m = []")
  case True
  then show ?thesis
    by (cases c) (auto simp: moveUp_def moveDown_def moveToStart_def moveToEnd_def
          moveByPage_def select_def)
next
  case False
  then have len: "0 < int (length (items m))" by simp
  have sel: "0 \<le> selected m" "selected m < int (length (items m))"
    using assms(1) False by (simp_all add: selected_in_range_def)
  show ?thesis
  proof (cases c)
    case MoveUp
    let ?n = "(let n = selected m - 1
               in if n < 0 then (if wrap m then int (length (items m)) - 1 else 0) else n)"
    have "0 \<le> ?n" "?n < int (length (items m))" using sel by (auto simp: Let_def)
    then have "0 \<le> moveUp_skip (items m) (wrap m) ?n 0
               \<and> moveUp_skip (items m) (wrap m) ?n 0 < int (length (items m))"
      by (rule moveUp_skip_range)
    then show ?thesis using MoveUp False by (auto simp: moveUp_def Let_def)
  next
    case MoveDown
    let ?n = "(let n = selected m + 1
               in if n \<ge> int (length (items m))
                  then (if wrap m then 0 else int (length (items m)) - 1) else n)"
    have "0 \<le> ?n" "?n < int (length (items m))" using sel by (auto simp: Let_def)
    then have "0 \<le> moveDown_skip (items m) (wrap m) ?n 0
               \<and> moveDown_skip (items m) (wrap m) ?n 0 < int (length (items m))"
      by (rule moveDown_skip_range)
    then show ?thesis using MoveDown False by (auto simp: moveDown_def Let_def)
  next
    case MoveToStart
    then obtain j where j: "0 \<le> j" "j < int (length (items m))" "\<not> item_disabled (items m) j"
      using assms(2) some_enabled_index by blast
    let ?r = "moveToStart_skip (items m) 0"
    have "0 \<le> ?r \<and> ?r < int (length (items m))"
      using moveToStart_skip_range [OF j] j(2) by simp
    moreover have "navigate m c = updateOffset (m\<lparr> selected := ?r \<rparr>)"
      using MoveToStart False by (simp add: moveToStart_def)
    ultimately show ?thesis by blast
  next
    case MoveToEnd
    then obtain j where j: "0 \<le> j" "j < int (length (items m))" "\<not> item_disabled (items m) j"
      using assms(2) some_enabled_index by blast
    then have le: "j \<le> int (length (items m)) - 1" by simp
    let ?r = "moveToEnd_skip (items m) (int (length (items m)) - 1)"
    have "0 \<le> ?r \<and> ?r < int (length (items m))"
      using moveToEnd_skip_range [OF le j(1,3)] j(1) by simp
    moreover have "navigate m c = updateOffset (m\<lparr> selected := ?r \<rparr>)"
      using MoveToEnd False by (simp add: moveToEnd_def)
    ultimately show ?thesis by blast
  next
    case (MoveByPage dir)
    show ?thesis
    proof (cases "moveByPage_skip (items m) dir (page_candidate m dir)")
      case None
      with MoveByPage show ?thesis by (simp add: moveByPage_def)
    next
      case (Some r)
      from moveByPage_skip_range [OF Some] page_candidate_range [OF False, of dir]
      have "0 \<le> r \<and> r < int (length (items m))" by simp
      with MoveByPage Some False show ?thesis by (auto simp: moveByPage_def)
    qed
  next
    case (Select i)
    show ?thesis
    proof (cases "i < 0 \<or> i \<ge> int (length (items m)) \<or> item_disabled (items m) i")
      case True
      with Select show ?thesis by (auto simp: select_def)
    next
      case False
      then have "navigate m c = updateOffset (m\<lparr> selected := i \<rparr>)"
        using Select by (simp add: select_def)
      moreover have "0 \<le> i \<and> i < int (length (items m))" using False by simp
      ultimately show ?thesis by blast
    qed
  qed
qed

lemma navigate_fields [simp]:
  "items (navigate m c) = items m" "height (navigate m c) = height m"
  using navigate_cases [of m c] by auto

lemma navigate_window:
  assumes "0 < height m"
  shows "window_ok (navigate m c) \<or> navigate m c = m"
proof -
  from navigate_cases [of m c]
  consider "navigate m c = m" | s where "navigate m c = updateOffset (m\<lparr> selected := s \<rparr>)"
    by blast
  then show ?thesis
  proof cases
    case 1
    then show ?thesis by simp
  next
    case 2
    have "window_ok (updateOffset (m\<lparr> selected := s \<rparr>))"
      using assms by (intro updateOffset_window) simp
    with 2 show ?thesis by simp
  qed
qed

lemma navigate_invariant:
  assumes "0 < height m" "offset_in_bounds m" "selected_in_range m"
    and "c = MoveToStart \<or> c = MoveToEnd \<longrightarrow> some_enabled (items m)"
  shows "offset_in_bounds (navigate m c) \<and> selected_in_range (navigate m c)"
proof -
  from navigate_cases_range [OF assms(3,4)]
  consider "navigate m c = m"
    | s where "0 \<le> s" "s < int (length (items m))" "navigate m c = updateOffset (m\<lparr> selected := s \<rparr>)"
    by blast
  then show ?thesis
  proof cases
    case 1
    with assms show ?thesis by simp
  next
    case 2
    have "offset_in_bounds (m\<lparr> selected := s \<rparr>)"
      using assms(2) by (simp add: offset_in_bounds_def)
    then have "offset_in_bounds (updateOffset (m\<lparr> selected := s \<rparr>))"
      using 2(1,2) assms(1) by (intro updateOffset_bounds) simp_all
    moreover have "selected_in_range (updateOffset (m\<lparr> selected := s \<rparr>))"
      using 2(1,2) by (auto simp: selected_in_range_def)
    ultimately show ?thesis using 2(3) by simp
  qed
qed

lemma navigate_zero:
  assumes "height m = 0" "offset m = 0"
  shows "offset (navigate m c) = 0"
  using navigate_cases [of m c] assms by (auto simp: updateOffset_def)

lemma navigate_all_Cons: "navigate_all m (c # cs) = navigate_all (navigate m c) cs"
  by (simp add: navigate_all_def)

lemma navigate_all_fields [simp]:
  "items (navigate_all m cs) = items m" "height (navigate_all m cs) = height m"
  by (induction cs arbitrary: m) (simp_all add: navigate_all_def)

lemma navigate_all_window:
  "0 < height m \<Longrightarrow> window_ok (navigate_all m cs) \<or> navigate_all m cs = m"
proof (induction cs arbitrary: m)
  case Nil
  show ?case by (simp add: navigate_all_def)
next
  case (Cons c cs)
  have h: "0 < height (navigate m c)" using Cons.prems by simp
  from Cons.IH [OF h] navigate_window [OF Cons.prems, of c]
  show ?case by (auto simp: navigate_all_Cons)
qed

lemma navigate_all_invariant:
  "0 < height m \<Longrightarrow> offset_in_bounds m \<Longrightarrow> selected_in_range m \<Longrightarrow>
   (\<forall>c\<in>set cs. c = MoveToStart \<or> c = MoveToEnd \<longrightarrow> some_enabled (items m)) \<Longrightarrow>
   offset_in_bounds (navigate_all m cs) \<and> selected_in_range (navigate_all m cs)"
proof (induction cs arbitrary: m)
  case Nil
  then show ?case by (simp add: navigate_all_def)
next
  case (Cons c cs)
  have step: "offset_in_bounds (navigate m c) \<and> selected_in_range (navigate m c)"
    using Cons.prems by (intro navigate_invariant) simp_all
  have "offset_in_bounds (navigate_all (navigate m c) cs)
        \<and> selected_in_range (navigate_all (navigate m c) cs)"
    using Cons.prems step by (intro Cons.IH) simp_all
  then show ?case by (simp add: navigate_all_Cons)
qed

lemma navigate_all_zero:
  "height m = 0 \<Longrightarrow> offset m = 0 \<Longrightarrow> offset (navigate_all m cs) = 0"
proof (induction cs arbitrary: m)
  case Nil
  then show ?case by (simp add: navigate_all_def)
next
  case (Cons c cs)
  have "offset (navigate m c) = 0" using Cons.prems by (rule navigate_zero)
  with Cons.prems Cons.IH [of "navigate m c"] show ?case by (simp add: navigate_all_Cons)
qed

lemma createList_invariant:
  "offset (createList opts) = 0" "offset_in_bounds (createList opts)"
  "selected_in_range (createList opts)"
  by (auto simp: createList_def Let_def offset_in_bounds_def selected_in_range_def)

lemma createList_window:
  "selected (createList opts) < height (createList opts) \<Longrightarrow> window_ok (createList opts)"
  by (auto simp: createList_def Let_def window_ok_def)

lemma moveByPage_skip_down_found:
  "n \<le> j \<Longrightarrow> 0 \<le> n \<Longrightarrow> j < int (length its) \<Longrightarrow> \<not> item_disabled its j \<Longrightarrow>
   (\<forall>k. n \<le> k \<and> k < j \<longrightarrow> item_disabled its k) \<Longrightarrow>
   moveByPage_skip its Down n = Some j"
proof (induction "nat (j - n)" arbitrary: n)
  case 0
  then have "n = j" by simp
  with 0 show ?case by (subst moveByPage_skip.simps) simp
next
  case (Suc d)
  then have lt: "n < j" by linarith
  then have dis: "item_disabled its n" using Suc.prems by simp
  have "moveByPage_skip its Down (n + 1) = Some j"
    using Suc.hyps(2) Suc.prems lt by (intro Suc.hyps(1)) auto
  then show ?case using dis lt Suc.prems
    by (subst moveByPage_skip.simps) (simp add: Let_def)
qed

lemma moveByPage_skip_up_found:
  "j \<le> n \<Longrightarrow> 0 \<le> j \<Longrightarrow> n < int (length its) \<Longrightarrow> \<not> item_disabled its j \<Longrightarrow>
   (\<forall>k. j < k \<and> k \<le> n \<longrightarrow> item_disabled its k) \<Longrightarrow>
   moveByPage_skip its Up n = Some j"
proof (induction "nat (n - j)" arbitrary: n)
  case 0
  then have "n = j" by simp
  with 0 show ?case by (subst moveByPage_skip.simps) simp
next
  case (Suc d)
  then have lt: "j < n" by linarith
  then have dis: "item_disabled its n" using Suc.prems by simp
  have "moveByPage_skip its Up (n - 1) = Some j"
    using Suc.hyps(2) Suc.prems lt by (intro Suc.hyps(1)) auto
  then show ?case using dis lt Suc.prems
    by (subst moveByPage_skip.simps) (simp add: Let_def)
qed

lemma moveByPage_skip_down_none:
  "0 \<le> n \<Longrightarrow> n < int (length its) \<Longrightarrow>
   (\<forall>k. n \<le> k \<and> k < int (length its) \<longrightarrow> item_disabled its k) \<Longrightarrow>
   moveByPage_skip its Down n = None"
proof (induction "nat (int (length its) - n)" arbitrary: n)
  case 0
  then show ?case by simp
next
  case (Suc d)
  have dis: "item_disabled its n" using Suc.prems by simp
  show ?case
  proof (cases "n + 1 \<ge> int (length its)")
    case True
    with dis show ?thesis by (subst moveByPage_skip.simps) (simp add: Let_def)
  next
    case False
    have "moveByPage_skip its Down (n + 1) = None"
      using Suc.hyps(2) Suc.prems False by (intro Suc.hyps(1)) auto
    with dis False Suc.prems show ?thesis
      by (subst moveByPage_skip.simps) (simp add: Let_def)
  qed
qed

lemma moveByPage_skip_up_none:
  "0 \<le> n \<Longrightarrow> n < int (length its) \<Longrightarrow>
   (\<forall>k. 0 \<le> k \<and> k \<le> n \<longrightarrow> item_disabled its k) \<Longrightarrow>
   moveByPage_skip its Up n = None"
proof (induction "nat n" arbitrary: n)
  case 0
  then have "n = 0" by simp
  moreover have "item_disabled its 0" using 0 by simp
  ultimately show ?case by (subst moveByPage_skip.simps) (simp add: Let_def)
next
  case (Suc d)
  have dis: "item_disabled its n" using Suc.prems by simp
  have pos: "0 < n" using Suc.hyps(2) by linarith
  have "moveByPage_skip its Up (n - 1) = None"
    using Suc.hyps(2) Suc.prems pos by (intro Suc.hyps(1)) auto
  with dis pos Suc.prems show ?case
    by (subst moveByPage_skip.simps) (simp add: Let_def)
qed

subsection \<open>Claims\<close>

text \<open>
  C1, as stated, fails. \<open>createList\<close> always sets \<open>offset\<close> to 0, also when the
  initial selection lies beyond the first window, and a navigation call that fails
  closed returns that model as it is: with three items, \<open>selected = 2\<close> and
  \<open>height = 1\<close>, \<open>select(model, 7)\<close> leaves \<open>offset = 0\<close> and \<open>selected = 2\<close>.
\<close>

theorem scroll_window_counterexample:
  "0 < height (createList (list_options [mk_item ''A'' None, mk_item ''B'' None, mk_item ''C'' None] 2 1))
   \<and> offset (navigate_all
         (createList (list_options [mk_item ''A'' None, mk_item ''B'' None, mk_item ''C'' None] 2 1))
         [Select 7]) = 0
   \<and> selected (navigate_all
         (createList (list_options [mk_item ''A'' None, mk_item ''B'' None, mk_item ''C'' None] 2 1))
         [Select 7]) = 2
   \<and> \<not> window_ok (navigate_all
         (createList (list_options [mk_item ''A'' None, mk_item ''B'' None, mk_item ''C'' None] 2 1))
         [Select 7])"
  by (simp add: navigate_all_def select_def createList_def list_options_def nullish_def
        window_ok_def)

text \<open>
  C1, amended. For a model made by \<open>createList\<close> with \<open>height = H > 0\<close>, after any
  sequence of navigation calls (\<open>moveUp\<close>, \<open>moveDown\<close>, \<open>moveToStart\<close>, \<open>moveToEnd\<close>,
  \<open>moveByPage\<close>, \<open>select\<close>):
  \<^item> the window contains the selection, \<open>offset \<le> selected \<le> offset + H - 1\<close>, unless the
    model is still the created one; it always does when the created selection is
    below \<open>H\<close>;
  \<^item> \<open>0 \<le> offset \<le> max(0, items.length - H)\<close>, provided \<open>moveToStart\<close> and \<open>moveToEnd\<close>
    are only called on a list that has an enabled item.
  When \<open>height = 0\<close>, \<open>offset\<close> is 0 after any sequence of navigation calls.
\<close>

theorem scroll_window_amended:
  "(0 < height (createList opts) \<longrightarrow>
      (window_ok (navigate_all (createList opts) calls)
         \<or> navigate_all (createList opts) calls = createList opts)
      \<and> (selected (createList opts) < height (createList opts)
           \<longrightarrow> window_ok (navigate_all (createList opts) calls))
      \<and> ((\<forall>c\<in>set calls. c = MoveToStart \<or> c = MoveToEnd
              \<longrightarrow> some_enabled (items (createList opts)))
           \<longrightarrow> offset_in_bounds (navigate_all (createList opts) calls)))
   \<and> (height (createList opts) = 0 \<longrightarrow> offset (navigate_all (createList opts) calls) = 0)"
proof (intro conjI impI)
  assume h: "0 < height (createList opts)"
  show w: "window_ok (navigate_all (createList opts) calls)
         \<or> navigate_all (createList opts) calls = createList opts"
    using h by (rule navigate_all_window)
  {
    assume "selected (createList opts) < height (createList opts)"
    then have "window_ok (createList opts)" by (rule createList_window)
    with w show "window_ok (navigate_all (createList opts) calls)" by auto
  }
  {
    assume "\<forall>c\<in>set calls. c = MoveToStart \<or> c = MoveToEnd
              \<longrightarrow> some_enabled (items (createList opts))"
    with h createList_invariant(2,3) [of opts]
    show "offset_in_bounds (navigate_all (createList opts) calls)"
      using navigate_all_invariant by blast
  }
next
  assume "height (createList opts) = 0"
  then show "offset (navigate_all (createList opts) calls) = 0"
    using createList_invariant(1) by (rule navigate_all_zero)
qed

theorem scroll_window_amended_witness:
  "0 < height (createList (list_options [mk_item ''A'' None, mk_item ''B'' (Some True), mk_item ''C'' None] 0 2))
   \<and> selected (createList (list_options [mk_item ''A'' None, mk_item ''B'' (Some True), mk_item ''C'' None] 0 2))
       < height (createList (list_options [mk_item ''A'' None, mk_item ''B'' (Some True), mk_item ''C'' None] 0 2))
   \<and> some_enabled (items (createList (list_options [mk_item ''A'' None, mk_item ''B'' (Some True), mk_item ''C'' None] 0 2)))
   \<and> window_ok (navigate_all
         (createList (list_options [mk_item ''A'' None, mk_item ''B'' (Some True), mk_item ''C'' None] 0 2))
         [MoveDown, MoveToEnd, Select 1])
   \<and> offset_in_bounds (navigate_all
         (createList (list_options [mk_item ''A'' None, mk_item ''B'' (Some True), mk_item ''C'' None] 0 2))
         [MoveDown, MoveToEnd, Select 1])
   \<and> height (createList (list_options [mk_item ''A'' None] 0 0)) = 0
   \<and> offset (navigate_all (createList (list_options [mk_item ''A'' None] 0 0)) [MoveDown]) = 0"
  using scroll_window_amended
    [of "list_options [mk_item ''A'' None, mk_item ''B'' (Some True), mk_item ''C'' None] 0 2"
        "[MoveDown, MoveToEnd, Select 1]"]
    scroll_window_amended [of "list_options [mk_item ''A'' None] 0 0" "[MoveDown]"]
  by (simp add: createList_def list_options_def mk_item_def nullish_def some_enabled_def)

text \<open>
  C2. The code leaves the range \<open>0 \<le> selected < items.length\<close> when every item is
  disabled: the loop of \<open>moveToEnd\<close> walks down to \<open>-1\<close> and the loop of \<open>moveToStart\<close>
  up to \<open>items.length\<close>, whereas \<open>moveUp\<close> and \<open>moveDown\<close> stay inside the list.
\<close>

theorem moveTo_all_disabled_out_of_range:
  "items (createList (list_options [mk_item ''A'' (Some True)] 0 0)) \<noteq> []
   \<and> selected (createList (list_options [mk_item ''A'' (Some True)] 0 0)) = 0
   \<and> selected (moveToEnd (createList (list_options [mk_item ''A'' (Some True)] 0 0))) = - 1
   \<and> selected (moveToStart (createList (list_options [mk_item ''A'' (Some True)] 0 0)))
       = int (length (items (createList (list_options [mk_item ''A'' (Some True)] 0 0))))
   \<and> selected (moveUp (createList (list_options [mk_item ''A'' (Some True)] 0 0))) = 0
   \<and> selected (moveDown (createList (list_options [mk_item ''A'' (Some True)] 0 0))) = 0"
  by (simp add: createList_def list_options_def mk_item_def nullish_def moveToEnd_def
        moveToStart_def moveUp_def moveDown_def moveToEnd_skip.simps moveToStart_skip.simps
        moveUp_skip.simps moveDown_skip.simps item_disabled_def)

text \<open>
  C5. On a non-empty list \<open>moveByPage\<close> starts from the candidate
  \<open>selected \<plusminus> pageSize\<close> clamped to \<open>[0, items.length - 1]\<close>, where \<open>pageSize\<close> is
  \<open>height\<close> when positive and 10 otherwise. When every item from the candidate to the
  end of the list in the page direction is disabled, the model is returned unchanged.
  Otherwise the selection moves to the first enabled item met from the candidate in
  the page direction, and the offset follows by the scroll-window rule.
\<close>

theorem moveByPage_page_jump:
  assumes "items m \<noteq> []"
  shows
    "page_candidate m dir
       = max 0 (min (selected m + (if dir = Up then - (if height m > 0 then height m else 10)
                                   else (if height m > 0 then height m else 10)))
                    (int (length (items m)) - 1))
     \<and> ((\<forall>k. (dir = Down \<longrightarrow> page_candidate m dir \<le> k \<and> k < int (length (items m)))
             \<and> (dir = Up \<longrightarrow> 0 \<le> k \<and> k \<le> page_candidate m dir)
             \<longrightarrow> item_disabled (items m) k)
          \<longrightarrow> moveByPage m dir = m)
     \<and> (0 \<le> j \<and> j < int (length (items m)) \<and> \<not> item_disabled (items m) j
          \<and> (dir = Down \<longrightarrow> page_candidate m dir \<le> j
                \<and> (\<forall>k. page_candidate m dir \<le> k \<and> k < j \<longrightarrow> item_disabled (items m) k))
          \<and> (dir = Up \<longrightarrow> j \<le> page_candidate m dir
                \<and> (\<forall>k. j < k \<and> k \<le> page_candidate m dir \<longrightarrow> item_disabled (items m) k))
          \<longrightarrow> moveByPage m dir = updateOffset (m\<lparr> selected := j \<rparr>))"
proof (intro conjI impI)
  show "page_candidate m dir
       = max 0 (min (selected m + (if dir = Up then - (if height m > 0 then height m else 10)
                                   else (if height m > 0 then height m else 10)))
                    (int (length (items m)) - 1))"
    by (simp add: page_candidate_def Let_def)
next
  assume a: "\<forall>k. (dir = Down \<longrightarrow> page_candidate m dir \<le> k \<and> k < int (length (items m)))
             \<and> (dir = Up \<longrightarrow> 0 \<le> k \<and> k \<le> page_candidate m dir)
             \<longrightarrow> item_disabled (items m) k"
  note r = page_candidate_range [OF assms, of dir]
  have "moveByPage_skip (items m) dir (page_candidate m dir) = None"
  proof (cases dir)
    case Up
    with a r show ?thesis by (simp add: moveByPage_skip_up_none)
  next
    case Down
    with a r show ?thesis by (simp add: moveByPage_skip_down_none)
  qed
  then show "moveByPage m dir = m" by (simp add: moveByPage_def)
next
  assume a: "0 \<le> j \<and> j < int (length (items m)) \<and> \<not> item_disabled (items m) j
          \<and> (dir = Down \<longrightarrow> page_candidate m dir \<le> j
                \<and> (\<forall>k. page_candidate m dir \<le> k \<and> k < j \<longrightarrow> item_disabled (items m) k))
          \<and> (dir = Up \<longrightarrow> j \<le> page_candidate m dir
                \<and> (\<forall>k. j < k \<and> k \<le> page_candidate m dir \<longrightarrow> item_disabled (items m) k))"
  note r = page_candidate_range [OF assms, of dir]
  have "moveByPage_skip (items m) dir (page_candidate m dir) = Some j"
  proof (cases dir)
    case Up
    with a r show ?thesis by (intro moveByPage_skip_up_found [where n = "page_candidate m Up", simplified Up [symmetric]]) auto
  next
    case Down
    with a r show ?thesis by (simp add: moveByPage_skip_down_found)
  qed
  with assms show "moveByPage m dir = updateOffset (m\<lparr> selected := j \<rparr>)"
    by (simp add: moveByPage_def)
qed

theorem moveByPage_page_jump_witness:
  "items (createList (list_options [mk_item ''A'' None, mk_item ''B'' (Some True), mk_item ''C'' (Some True)] 0 1)) \<noteq> []
   \<and> page_candidate (createList (list_options [mk_item ''A'' None, mk_item ''B'' (Some True), mk_item ''C'' (Some True)] 0 1)) Down = 1
   \<and> moveByPage (createList (list_options [mk_item ''A'' None, mk_item ''B'' (Some True), mk_item ''C'' (Some True)] 0 1)) Down
       = createList (list_options [mk_item ''A'' None, mk_item ''B'' (Some True), mk_item ''C'' (Some True)] 0 1)
   \<and> page_candidate (createList (list_options [mk_item ''A'' None, mk_item ''B'' (Some True), mk_item ''C'' None] 0 1)) Down = 1
   \<and> moveByPage (createList (list_options [mk_item ''A'' None, mk_item ''B'' (Some True), mk_item ''C'' None] 0 1)) Down
       = updateOffset ((createList (list_options [mk_item ''A'' None, mk_item ''B'' (Some True), mk_item ''C'' None] 0 1))
           \<lparr> selected := 2 \<rparr>)
   \<and> page_candidate (createList (list_options [mk_item ''A'' (Some True), mk_item ''B'' (Some True), mk_item ''C'' None] 2 1)) Up = 1
   \<and> moveByPage (createList (list_options [mk_item ''A'' (Some True), mk_item ''B'' (Some True), mk_item ''C'' None] 2 1)) Up
       = createList (list_options [mk_item ''A'' (Some True), mk_item ''B'' (Some True), mk_item ''C'' None] 2 1)"
proof -
  let ?blocked = "createList (list_options [mk_item ''A'' None, mk_item ''B'' (Some True), mk_item ''C'' (Some True)] 0 1)"
  let ?skip = "createList (list_options [mk_item ''A'' None, mk_item ''B'' (Some True), mk_item ''C'' None] 0 1)"
  let ?top = "createList (list_options [mk_item ''A'' (Some True), mk_item ''B'' (Some True), mk_item ''C'' None] 2 1)"
  have c1: "page_candidate ?blocked Down = 1" and c2: "page_candidate ?skip Down = 1"
    and c3: "page_candidate ?top Up = 1"
    by (simp_all add: page_candidate_def createList_def list_options_def nullish_def)
  have ne: "items ?blocked \<noteq> []" "items ?skip \<noteq> []" "items ?top \<noteq> []"
    by (simp_all add: createList_def list_options_def nullish_def)
  have split: "1 \<le> k \<and> k < 3 \<longleftrightarrow> k = 1 \<or> k = 2" "0 \<le> k \<and> k \<le> 1 \<longleftrightarrow> k = 0 \<or> k = 1"
    "1 \<le> k \<and> k < 2 \<longleftrightarrow> k = 1" for k :: int
    by auto
  have h1: "\<forall>k. 1 \<le> k \<and> k < 3 \<longrightarrow> item_disabled (items ?blocked) k"
    unfolding split
    by (auto simp: createList_def list_options_def nullish_def mk_item_def item_disabled_def)
  have h2: "\<not> item_disabled (items ?skip) 2"
     "\<forall>k. 1 \<le> k \<and> k < 2 \<longrightarrow> item_disabled (items ?skip) k"
    unfolding split
    by (auto simp: createList_def list_options_def nullish_def mk_item_def item_disabled_def)
  have h3: "\<forall>k. 0 \<le> k \<and> k \<le> 1 \<longrightarrow> item_disabled (items ?top) k"
    unfolding split
    by (auto simp: createList_def list_options_def nullish_def mk_item_def item_disabled_def)
  have l2: "int (length (items ?skip)) = 3" "int (length (items ?blocked)) = 3"
    by (simp_all add: createList_def list_options_def nullish_def)
  have r1: "moveByPage ?blocked Down = ?blocked"
    using moveByPage_page_jump [OF ne(1), of Down 0] h1 by (simp add: c1 l2)
  have r2: "moveByPage ?skip Down = updateOffset (?skip\<lparr> selected := 2 \<rparr>)"
    using moveByPage_page_jump [OF ne(2), of Down 2] h2 by (simp add: c2 l2)
  have r3: "moveByPage ?top Up = ?top"
    using moveByPage_page_jump [OF ne(3), of Up 0] h3 by (simp add: c3)
  show ?thesis using ne(1) c1 c2 c3 r1 r2 r3 by simp
qed

text \<open>
  C4. \<open>select\<close> fails closed: when the index is out of range (negative, or at least
  the number of items) or the item at the index is disabled, \<open>select\<close> returns the
  model it was given, every field unchanged.
\<close>

theorem select_fails_closed:
  "index < 0 \<or> index \<ge> int (length (items m)) \<or> item_disabled (items m) index
     \<Longrightarrow> select m index = m"
  by (auto simp: select_def)

theorem select_fails_closed_witness:
  "item_disabled
     (items (createList (list_options [mk_item ''Item 1'' None, mk_item ''Item 2'' (Some True)] 0 0))) 1
   \<and> select (createList (list_options [mk_item ''Item 1'' None, mk_item ''Item 2'' (Some True)] 0 0)) 1
       = createList (list_options [mk_item ''Item 1'' None, mk_item ''Item 2'' (Some True)] 0 0)"
  using select_fails_closed
    [of 1 "createList (list_options [mk_item ''Item 1'' None, mk_item ''Item 2'' (Some True)] 0 0)"]
  by (simp add: createList_def list_options_def mk_item_def nullish_def item_disabled_def)

text \<open>
  C10. For a model whose item sequence is empty, \<open>view\<close> returns the empty string, and
  so does \<open>viewWith\<close> with any renderer.
\<close>

theorem view_empty_items:
  "items m = [] \<Longrightarrow> view m = Inr [] \<and> viewWith m renderItem = []"
  by (simp add: view_def viewWith_def)

theorem view_empty_items_witness:
  "items (createList (list_options [] 0 3)) = []
   \<and> view (createList (list_options [] 0 3)) = Inr []
   \<and> viewWith (createList (list_options [] 0 3)) (\<lambda>item isSelected i. ''x'') = []"
  using view_empty_items [of "createList (list_options [] 0 3)" "\<lambda>item isSelected i. ''x''"]
  by (simp add: createList_def list_options_def nullish_def)

section \<open>Properties of the table widget\<close>

lemma scan_rows_mono: "w \<le> w' \<Longrightarrow> scan_rows col rs w \<le> scan_rows col rs w'"
  by (induction rs arbitrary: w w') auto

lemma scan_rows_update:
  assumes "k < length rs" "length (cell_text col (rs ! k)) \<le> length (cell_text col r')"
  shows "scan_rows col rs w \<le> scan_rows col (rs[k := r']) w"
  using assms
proof (induction rs arbitrary: w k)
  case Nil
  then show ?case by simp
next
  case (Cons r rs)
  show ?case
  proof (cases k)
    case 0
    with Cons.prems show ?thesis by (simp add: scan_rows_mono)
  next
    case (Suc j)
    with Cons.prems Cons.IH [of j] show ?thesis by simp
  qed
qed

lemma Max_insert_max:
  fixes S :: "int set"
  assumes "finite S"
  shows "Max (insert (max w a) S) = Max (insert w (insert a S))"
proof (cases "S = {}")
  case True
  then show ?thesis by simp
next
  case False
  with assms show ?thesis by (simp add: max.assoc)
qed

lemma scan_rows_Max:
  "scan_rows col rs w = Max (insert w ((\<lambda>r. int (length (cell_text col r))) ` set rs))"
proof (induction rs arbitrary: w)
  case Nil
  show ?case by simp
next
  case (Cons r rs)
  show ?case by (simp add: Cons.IH Max_insert_max)
qed

lemma content_width_nonneg: "0 \<le> content_width rs col"
proof -
  have "int (length (col_title col)) \<le> content_width rs col"
    unfolding content_width_def by (intro Max_ge) auto
  then show ?thesis by simp
qed

lemma column_width_amended:
  "column_width rs col = claimed_column_width rs (zero_bounds_absent col)"
proof -
  have ct: "cell_text (col\<lparr> col_width := a, col_maxWidth := b \<rparr>) = cell_text col" for a b
  proof (rule ext)
    fix r
    have "getValue r (col\<lparr> col_width := a, col_maxWidth := b \<rparr>) = getValue r col"
      by (cases r) (simp_all add: getValue_def)
    then show "cell_text (col\<lparr> col_width := a, col_maxWidth := b \<rparr>) r = cell_text col r"
      by (simp add: cell_text_def)
  qed
  have cw: "content_width rs (col\<lparr> col_width := a, col_maxWidth := b \<rparr>) = content_width rs col"
    for a b
    by (simp add: content_width_def ct)
  have sc: "scan_rows col rs (int (length (col_title col))) = content_width rs col"
    by (simp add: scan_rows_Max content_width_def)
  show ?thesis
    using content_width_nonneg [of rs col]
    by (auto simp: column_width_def claimed_column_width_def zero_as_absent_def truthy_num_def
          zero_bounds_absent_def Let_def sc cw split: option.splits)
qed

text \<open>
  C3, as stated, fails: a fixed \<open>width\<close> of 0 is specified and yet the width is
  driven by the content (the declaration documents \<open>0 = auto\<close>), and a \<open>maxWidth\<close> of 0
  does not clamp.
\<close>

theorem columnWidths_zero_width_counterexample:
  "columnWidths (createTable (table_options [mk_column ''name'' ''Name'' (Some 0) None None]
       [RObj [(''name'', Str ''Alice'')]])) ! 0
     \<noteq> claimed_column_width [RObj [(''name'', Str ''Alice'')]]
         (mk_column ''name'' ''Name'' (Some 0) None None)
   \<and> columnWidths (createTable (table_options [mk_column ''name'' ''Name'' (Some 0) None None]
       [RObj [(''name'', Str ''Alice'')]])) ! 0 = 5
   \<and> claimed_column_width [RObj [(''name'', Str ''Alice'')]]
         (mk_column ''name'' ''Name'' (Some 0) None None) = 0
   \<and> columnWidths (setRows (createTable (table_options [mk_column ''name'' ''Name'' None None (Some 0)] []))
       [RObj [(''name'', Str ''Alice'')]]) ! 0 = 5
   \<and> claimed_column_width [RObj [(''name'', Str ''Alice'')]]
         (mk_column ''name'' ''Name'' None None (Some 0)) = 0"
  by (simp add: createTable_def setRows_def table_options_def mk_column_def nullish_def
        column_width_def truthy_num_def cell_text_def getValue_def claimed_column_width_def
        content_width_def)

text \<open>
  C3, amended. For a table made by \<open>createTable\<close> or updated by \<open>setRows\<close>,
  \<open>columnWidths\<close> is parallel to \<open>columns\<close>, and each entry is: the column's fixed
  \<open>width\<close> when one is specified and is not 0; otherwise the largest of the title's
  length and the lengths of the formatted cell texts of all rows, raised to \<open>minWidth\<close>
  when given and then lowered to \<open>maxWidth\<close> when given and not 0.
\<close>

theorem columnWidths_amended:
  "length (columnWidths (createTable opts)) = length (topt_columns opts)
   \<and> length (columnWidths (setRows m rs)) = length (columns m)
   \<and> (i < length (topt_columns opts) \<longrightarrow>
        columnWidths (createTable opts) ! i
          = claimed_column_width (nullish (topt_rows opts) [])
              (zero_bounds_absent (topt_columns opts ! i)))
   \<and> (j < length (columns m) \<longrightarrow>
        columnWidths (setRows m rs) ! j
          = claimed_column_width rs (zero_bounds_absent (columns m ! j)))"
  by (simp add: createTable_def setRows_def Let_def column_width_amended)

theorem columnWidths_amended_witness:
  "(0::nat) < length (topt_columns (table_options [mk_column ''name'' ''Name'' (Some 0) (Some 3) (Some 6)]
        [RObj [(''name'', Str ''Alice'')], RObj [(''name'', Str ''Charlie'')]]))
   \<and> columnWidths (createTable (table_options [mk_column ''name'' ''Name'' (Some 0) (Some 3) (Some 6)]
        [RObj [(''name'', Str ''Alice'')], RObj [(''name'', Str ''Charlie'')]])) ! 0 = 6
   \<and> (0::nat) < length (columns (createTable (table_options [mk_column ''name'' ''Name'' None (Some 10) None] [])))
   \<and> columnWidths (setRows (createTable (table_options [mk_column ''name'' ''Name'' None (Some 10) None] []))
        [RObj [(''name'', Str ''Alice'')]]) ! 0 = 10"
  using columnWidths_amended
    [of "table_options [mk_column ''name'' ''Name'' (Some 0) (Some 3) (Some 6)]
           [RObj [(''name'', Str ''Alice'')], RObj [(''name'', Str ''Charlie'')]]"
        "createTable (table_options [mk_column ''name'' ''Name'' None (Some 10) None] [])"
        "[RObj [(''name'', Str ''Alice'')]]" 0 0]
  by (simp add: createTable_def table_options_def mk_column_def nullish_def
        claimed_column_width_def zero_bounds_absent_def zero_as_absent_def
        content_width_def cell_text_def getValue_def)

text \<open>
  C6. For a column without a fixed width, replacing one row by a row whose formatted
  cell text in that column is at least as long never decreases the column's entry of
  \<open>columnWidths\<close> after \<open>setRows\<close>.
\<close>

theorem setRows_width_monotone:
  assumes "i < length (columns m)" "\<not> truthy_num (col_width (columns m ! i))"
    "k < length rs"
    "length (cell_text (columns m ! i) (rs ! k)) \<le> length (cell_text (columns m ! i) r')"
  shows "columnWidths (setRows m rs) ! i \<le> columnWidths (setRows m (rs[k := r'])) ! i"
proof -
  let ?col = "columns m ! i"
  have "scan_rows ?col rs (int (length (col_title ?col)))
          \<le> scan_rows ?col (rs[k := r']) (int (length (col_title ?col)))"
    using assms(3,4) by (rule scan_rows_update)
  then have "column_width rs ?col \<le> column_width (rs[k := r']) ?col"
    using assms(2) by (auto simp: column_width_def Let_def)
  then show ?thesis using assms(1) by (simp add: setRows_def)
qed

theorem setRows_width_monotone_witness:
  "(0::nat) < length (columns (createTable (table_options [mk_column ''name'' ''Name'' None None None] [])))
   \<and> \<not> truthy_num (col_width (columns (createTable (table_options [mk_column ''name'' ''Name'' None None None] [])) ! 0))
   \<and> (0::nat) < length [RObj [(''name'', Str ''Bob'')]]
   \<and> columnWidths (setRows (createTable (table_options [mk_column ''name'' ''Name'' None None None] []))
         [RObj [(''name'', Str ''Bob'')]]) ! 0 = 4
   \<and> columnWidths (setRows (createTable (table_options [mk_column ''name'' ''Name'' None None None] []))
         ([RObj [(''name'', Str ''Bob'')]] [0 := RObj [(''name'', Str ''Charlie'')]])) ! 0 = 7
   \<and> columnWidths (setRows (createTable (table_options [mk_column ''name'' ''Name'' None None None] []))
         [RObj [(''name'', Str ''Bob'')]]) ! 0
       \<le> columnWidths (setRows (createTable (table_options [mk_column ''name'' ''Name'' None None None] []))
         ([RObj [(''name'', Str ''Bob'')]] [0 := RObj [(''name'', Str ''Charlie'')]])) ! 0"
  using setRows_width_monotone
    [of 0 "createTable (table_options [mk_column ''name'' ''Name'' None None None] [])"
        0 "[RObj [(''name'', Str ''Bob'')]]" "RObj [(''name'', Str ''Charlie'')]"]
  by (simp add: createTable_def setRows_def table_options_def mk_column_def nullish_def
        column_width_def truthy_num_def cell_text_def getValue_def)

text \<open>
  C8. \<open>setRows\<close> changes only \<open>rows\<close>, \<open>columnWidths\<close> and \<open>selected\<close>: the returned
  model is the input model with those three fields replaced, so \<open>columns\<close>, \<open>border\<close>,
  \<open>showHeader\<close>, \<open>showHeaderSeparator\<close>, \<open>padding\<close>, \<open>cursor\<close> and \<open>selectable\<close> are those
  of the input.
\<close>

theorem setRows_frame:
  "columns (setRows m rs) = columns m \<and> border (setRows m rs) = border m
   \<and> showHeader (setRows m rs) = showHeader m
   \<and> showHeaderSeparator (setRows m rs) = showHeaderSeparator m
   \<and> padding (setRows m rs) = padding m \<and> tbl_cursor (setRows m rs) = tbl_cursor m
   \<and> selectable (setRows m rs) = selectable m
   \<and> setRows m rs = m\<lparr> rows := rows (setRows m rs),
                          columnWidths := columnWidths (setRows m rs),
                          tbl_selected := tbl_selected (setRows m rs) \<rparr>"
  by (simp add: setRows_def)

section \<open>Properties of the timer widget\<close>




section \<open>Properties of the text input widget\<close>

text \<open>
  C9. Two text-input models that agree on every field except \<open>value\<close>, with a mask
  set and values of equal length, render to the same result: with a mask, \<open>view\<close>
  depends on the value through its length only.
\<close>

theorem view_masked_depends_on_length:
  assumes "ti_mask m \<noteq> None" "length v1 = length v2"
  shows "textinput_view (m\<lparr> ti_value := v1 \<rparr>) = textinput_view (m\<lparr> ti_value := v2 \<rparr>)"
proof -
  obtain k where k: "ti_mask m = Some k" using assms(1) by auto
  have a: "apply_mask (m\<lparr> ti_value := v1 \<rparr>) = apply_mask (m\<lparr> ti_value := v2 \<rparr>)"
    using assms(2) k by (simp add: apply_mask_def)
  have b: "show_placeholder (m\<lparr> ti_value := v1 \<rparr>) d = show_placeholder (m\<lparr> ti_value := v2 \<rparr>) d"
    for d
    by (simp add: show_placeholder_def)
  have c: "insert_cursor (m\<lparr> ti_value := v1 \<rparr>) d = insert_cursor (m\<lparr> ti_value := v2 \<rparr>) d"
    for d
    using assms(2) by (simp add: insert_cursor_def)
  have d: "apply_width (m\<lparr> ti_value := v1 \<rparr>) d = apply_width (m\<lparr> ti_value := v2 \<rparr>) d"
    for d
    by (simp add: apply_width_def Let_def)
  show ?thesis
    unfolding textinput_view_def a b c d using assms(2) by (simp add: Let_def cong: if_cong)
qed

theorem view_masked_depends_on_length_witness:
  "ti_mask password_input \<noteq> None \<and> length ''secret'' = length ''abcdef''
   \<and> textinput_view (password_input\<lparr> ti_value := ''secret'' \<rparr>) = Inr ''> ******| 6/8''
   \<and> textinput_view (password_input\<lparr> ti_value := ''abcdef'' \<rparr>) = Inr ''> ******| 6/8''"
proof -
  have a: "textinput_view (password_input\<lparr> ti_value := ''secret'' \<rparr>) = Inr ''> ******| 6/8''"
    by code_simp
  show ?thesis
    using view_masked_depends_on_length [of password_input "''secret''" "''abcdef''"] a
    by (simp add: password_input_def)
qed

end
